theory Spec2Isabelle
  imports Complex_Main "HOL-Library.Sublist"
begin

section \<open>The Poisson notebook\<close>

text \<open>
  The repository is one Jupyter notebook, \<^verbatim>\<open>Poisson_linear.ipynb\<close>. Its code cells are a
  straight-line Python script: every statement is a call into mpi4py, dolfinx, ufl or
  petsc4py, or a constant. The embedding has two parts:
  \<^item> the constants the notebook writes down itself (the boundary function, the source
    term, the mesh subdivisions, the solver options), as HOL constants;
  \<^item> the script, as a function over an arbitrary external library: the library is a
    parameter that answers each call with a result or an exception and may change its own
    state, and the script threads that state and a trace of the calls it made.
  The boundary function, which numpy evaluates in float64, is modelled on \<^typ>\<open>real\<close>:
  the theorems below speak of the mathematical function, not of rounding. What the
  libraries compute (the mesh, the numbering of the degrees of freedom, the assembled
  system, the solution array) is not part of the notebook and is not modelled: the value
  of a run is whatever object the library returns for \<^verbatim>\<open>uh.vector.array\<close>.
\<close>

subsection \<open>Constants written in the notebook\<close>

text \<open>Cell 2: \<^verbatim>\<open>create_unit_square(MPI.COMM_WORLD, 8, 8, CellType.quadrilateral)\<close> and
  \<^verbatim>\<open>FunctionSpace(solution_domain, ("CG", 1))\<close>.\<close>

definition nx :: int where
  "nx = 8"

definition ny :: int where
  "ny = 8"

definition element :: "string \<times> int" where
  "element = (''CG'', 1)"

text \<open>Cell 3: \<^verbatim>\<open>lambda x: 1 + x[0]**2 + 2 * x[1]**2\<close>. dolfinx calls it with the
  coordinates of the interpolation points, \<open>x[0]\<close> and \<open>x[1]\<close> being the first two.\<close>

definition u_D :: "real list \<Rightarrow> real" where
  "u_D x = 1 + (x ! 0)\<^sup>2 + 2 * (x ! 1)\<^sup>2"

text \<open>Cell 7: \<^verbatim>\<open>f_num = - 6\<close>.\<close>

definition f_num :: int where
  "f_num = - 6"

text \<open>Cell 9: \<^verbatim>\<open>petsc_options={"ksp_type": "preonly", "pc_type": "lu"}\<close>.\<close>

definition petsc_options :: "(string \<times> string) list" where
  "petsc_options = [(''ksp_type'', ''preonly''), (''pc_type'', ''lu'')]"


subsection \<open>Calls into the external libraries\<close>

text \<open>\<^verbatim>\<open>MPI.COMM_WORLD\<close> and \<^verbatim>\<open>MPI.COMM_SELF\<close> (the notebook's text names both),
  and the members of \<^verbatim>\<open>fe.mesh.CellType\<close> for a square.\<close>

datatype comm = COMM_WORLD | COMM_SELF

datatype CellType = triangle | quadrilateral

text \<open>
  One constructor for each kind of call the notebook makes, with the arguments the notebook
  passes. \<open>'o\<close> is the type of the objects the libraries hand back (meshes, function
  spaces, functions, index arrays, UFL expressions, the solver): the notebook never looks
  inside them, it only passes them on. An attribute read (\<^verbatim>\<open>.topology\<close>,
  \<^verbatim>\<open>.dim\<close>, \<^verbatim>\<open>ufl.dx\<close>, \<^verbatim>\<open>.vector\<close>, \<^verbatim>\<open>.array\<close>) and the overloaded
  \<^verbatim>\<open>*\<close> of UFL are calls into the library as well.
\<close>

datatype 'o call =
    Import string
  | From_import string string
  | Create_unit_square comm int int CellType
  | FunctionSpace 'o "string \<times> int"
  | Function 'o
  | Interpolate 'o "real list \<Rightarrow> real"
  | Topology 'o
  | Topology_dim 'o
  | Create_connectivity 'o int int
  | Exterior_facet_indices 'o
  | Locate_dofs_topological 'o int 'o
  | Dirichletbc 'o 'o
  | TrialFunction 'o
  | TestFunction 'o
  | ScalarType int
  | Constant 'o 'o
  | Grad 'o
  | Dot 'o 'o
  | Dx
  | Mul 'o 'o
  | LinearProblem 'o 'o "'o list" "(string \<times> string) list"
  | Solve 'o
  | Vector 'o
  | Array 'o

text \<open>The name under which the notebook reaches each call.\<close>

fun op_name :: "'o call \<Rightarrow> string" where
  "op_name (Import m) = ''import''"
| "op_name (From_import m n) = ''import''"
| "op_name (Create_unit_square c n m t) = ''create_unit_square''"
| "op_name (FunctionSpace m e) = ''FunctionSpace''"
| "op_name (Function V) = ''Function''"
| "op_name (Interpolate u g) = ''interpolate''"
| "op_name (Topology m) = ''topology''"
| "op_name (Topology_dim t) = ''dim''"
| "op_name (Create_connectivity t d0 d1) = ''create_connectivity''"
| "op_name (Exterior_facet_indices t) = ''exterior_facet_indices''"
| "op_name (Locate_dofs_topological V d facets) = ''locate_dofs_topological''"
| "op_name (Dirichletbc g dofs) = ''dirichletbc''"
| "op_name (TrialFunction V) = ''TrialFunction''"
| "op_name (TestFunction V) = ''TestFunction''"
| "op_name (ScalarType n) = ''ScalarType''"
| "op_name (Constant m c) = ''Constant''"
| "op_name (Grad e) = ''grad''"
| "op_name (Dot e1 e2) = ''dot''"
| "op_name Dx = ''dx''"
| "op_name (Mul e1 e2) = ''*''"
| "op_name (LinearProblem a L bcs opts) = ''LinearProblem''"
| "op_name (Solve p) = ''solve''"
| "op_name (Vector u) = ''vector''"
| "op_name (Array v) = ''array''"

text \<open>
  The external libraries are a parameter. A library answers a call, in its current state
  \<open>'h\<close> (the objects it has built so far, which calls such as \<^verbatim>\<open>interpolate\<close> and
  \<^verbatim>\<open>create_connectivity\<close> change in place), with an exception \<open>'e\<close> or a result, and
  a new state. There is one entry per Python type of result the notebook relies on: an
  object, an \<^verbatim>\<open>int\<close> (\<^verbatim>\<open>topology.dim\<close>, from which the notebook subtracts 1), or
  \<^verbatim>\<open>None\<close>.
\<close>

record ('h, 'e, 'o) library =
  ext_object :: "'o call \<Rightarrow> 'h \<Rightarrow> ('e + 'o) \<times> 'h"
  ext_int :: "'o call \<Rightarrow> 'h \<Rightarrow> ('e + int) \<times> 'h"
  ext_none :: "'o call \<Rightarrow> 'h \<Rightarrow> ('e + unit) \<times> 'h"

subsection \<open>The script\<close>

text \<open>
  The state of a run is the state of the library together with the trace: the calls made
  so far, each with the exception it raised, if any. A statement either raises, and the
  run ends there with that exception, or yields a value.
\<close>

type_synonym ('h, 'e, 'o) kernel = "'h \<times> ('o call \<times> 'e option) list"

type_synonym ('h, 'e, 'o, 'a) nb =
  "('h, 'e, 'o) kernel \<Rightarrow> ('e + 'a) \<times> ('h, 'e, 'o) kernel"

definition call ::
  "('o call \<Rightarrow> 'h \<Rightarrow> ('e + 'a) \<times> 'h) \<Rightarrow> 'o call \<Rightarrow> ('h, 'e, 'o, 'a) nb" where
  "call ext c = (\<lambda>(h, tr).
     case ext c h of
       (Inl e, h') \<Rightarrow> (Inl e, (h', tr @ [(c, Some e)]))
     | (Inr a, h') \<Rightarrow> (Inr a, (h', tr @ [(c, None)])))"

definition seq ::
  "('h, 'e, 'o, 'a) nb \<Rightarrow> ('a \<Rightarrow> ('h, 'e, 'o, 'b) nb) \<Rightarrow> ('h, 'e, 'o, 'b) nb" where
  "seq m k = (\<lambda>s. case m s of (Inl e, s') \<Rightarrow> (Inl e, s') | (Inr a, s') \<Rightarrow> k a s')"

text \<open>
  The ten executed code cells, statement by statement, in Python's order of evaluation
  (arguments before the call, left operand before right). The notebook has no
  \<^verbatim>\<open>try\<close>, no branch and no loop. The value of the run is the value of the last
  expression, \<^verbatim>\<open>uh.vector.array\<close>, which Jupyter displays.
\<close>

definition notebook :: "('h, 'e, 'o) library \<Rightarrow> ('h, 'e, 'o, 'o) nb" where
  "notebook lib =
    \<comment> \<open>cell 1\<close>
    seq (call (ext_none lib) (From_import ''mpi4py'' ''MPI'')) (\<lambda>_.
    seq (call (ext_none lib) (Import ''dolfinx'')) (\<lambda>_.
    seq (call (ext_none lib) (Import ''numpy'')) (\<lambda>_.
    seq (call (ext_none lib) (Import ''ufl'')) (\<lambda>_.
    seq (call (ext_none lib) (From_import ''petsc4py'' ''PETSc'')) (\<lambda>_.
    \<comment> \<open>cell 2\<close>
    seq (call (ext_object lib) (Create_unit_square COMM_WORLD nx ny quadrilateral))
      (\<lambda>solution_domain.
    seq (call (ext_object lib) (FunctionSpace solution_domain element)) (\<lambda>V_function_space.
    \<comment> \<open>cell 3\<close>
    seq (call (ext_object lib) (Function V_function_space)) (\<lambda>u_boundary.
    seq (call (ext_none lib) (Interpolate u_boundary u_D)) (\<lambda>_.
    \<comment> \<open>cell 4\<close>
    seq (call (ext_object lib) (Topology solution_domain)) (\<lambda>topology.
    seq (call (ext_int lib) (Topology_dim topology)) (\<lambda>tdim.
    let fdim = tdim - 1 in
    seq (call (ext_object lib) (Topology solution_domain)) (\<lambda>topology.
    seq (call (ext_none lib) (Create_connectivity topology fdim tdim)) (\<lambda>_.
    seq (call (ext_object lib) (Topology solution_domain)) (\<lambda>topology.
    seq (call (ext_object lib) (Exterior_facet_indices topology)) (\<lambda>boundary_facets.
    \<comment> \<open>cell 5\<close>
    seq (call (ext_object lib) (Locate_dofs_topological V_function_space fdim boundary_facets))
      (\<lambda>boundary_dofs.
    seq (call (ext_object lib) (Dirichletbc u_boundary boundary_dofs)) (\<lambda>bc.
    \<comment> \<open>cell 6\<close>
    seq (call (ext_object lib) (TrialFunction V_function_space)) (\<lambda>u.
    seq (call (ext_object lib) (TestFunction V_function_space)) (\<lambda>v.
    \<comment> \<open>cell 7\<close>
    seq (call (ext_object lib) (ScalarType f_num)) (\<lambda>scalar.
    seq (call (ext_object lib) (Constant solution_domain scalar)) (\<lambda>f.
    \<comment> \<open>cell 8\<close>
    seq (call (ext_object lib) (Grad u)) (\<lambda>grad_u.
    seq (call (ext_object lib) (Grad v)) (\<lambda>grad_v.
    seq (call (ext_object lib) (Dot grad_u grad_v)) (\<lambda>integrand.
    seq (call (ext_object lib) Dx) (\<lambda>dx.
    seq (call (ext_object lib) (Mul integrand dx)) (\<lambda>a.
    seq (call (ext_object lib) (Mul f v)) (\<lambda>fv.
    seq (call (ext_object lib) Dx) (\<lambda>dx.
    seq (call (ext_object lib) (Mul fv dx)) (\<lambda>L.
    \<comment> \<open>cell 9\<close>
    seq (call (ext_object lib) (LinearProblem a L [bc] petsc_options)) (\<lambda>problem.
    seq (call (ext_object lib) (Solve problem)) (\<lambda>uh.
    \<comment> \<open>cell 10\<close>
    seq (call (ext_object lib) (Vector uh)) (\<lambda>vec.
    call (ext_object lib) (Array vec)))))))))))))))))))))))))))))))))"

text \<open>The names of the calls of each executed code cell, as the cell lists them, and the
  names of the calls of a trace.\<close>

definition cells :: "string list list" where
  "cells =
    [[''import'', ''import'', ''import'', ''import'', ''import''],
     [''create_unit_square'', ''FunctionSpace''],
     [''Function'', ''interpolate''],
     [''topology'', ''dim'', ''topology'', ''create_connectivity'', ''topology'',
      ''exterior_facet_indices''],
     [''locate_dofs_topological'', ''dirichletbc''],
     [''TrialFunction'', ''TestFunction''],
     [''ScalarType'', ''Constant''],
     [''grad'', ''grad'', ''dot'', ''dx'', ''*'', ''*'', ''dx'', ''*''],
     [''LinearProblem'', ''solve''],
     [''vector'', ''array'']]"

definition program_order :: "string list" where
  "program_order = concat cells"

definition ops :: "('o call \<times> 'e option) list \<Rightarrow> string list" where
  "ops tr = map (\<lambda>x. op_name (fst x)) tr"

text \<open>
  Two properties of a piece of script, used to reason about the whole of it one call at a
  time. \<open>performs m ns\<close>: from any state, \<open>m\<close> extends the trace by calls named \<open>ns\<close>, in
  that order and none raising, or by a beginning of them whose last call raised the
  exception \<open>m\<close> ends with. \<open>only_calls P m\<close>: \<open>m\<close> makes only calls that satisfy \<open>P\<close>.
\<close>

definition performs :: "('h, 'e, 'o, 'a) nb \<Rightarrow> string list \<Rightarrow> bool" where
  "performs m ns \<longleftrightarrow> (\<forall>h tr.
     case m (h, tr) of
       (Inr a, (h', tr')) \<Rightarrow>
         (\<exists>new. tr' = tr @ new \<and> ops new = ns \<and> (\<forall>x \<in> set new. snd x = None))
     | (Inl e, (h', tr')) \<Rightarrow>
         (\<exists>new c. tr' = tr @ new @ [(c, Some e)] \<and> prefix (ops new @ [op_name c]) ns
            \<and> (\<forall>x \<in> set new. snd x = None)))"

definition only_calls :: "('o call \<Rightarrow> bool) \<Rightarrow> ('h, 'e, 'o, 'a) nb \<Rightarrow> bool" where
  "only_calls P m \<longleftrightarrow> (\<forall>h tr. (\<forall>x \<in> set tr. P (fst x)) \<longrightarrow>
     (\<forall>x \<in> set (snd (snd (m (h, tr)))). P (fst x)))"

text \<open>
  \<open>solves_configured lib tr\<close>: every \<^verbatim>\<open>solve\<close> of the trace is called on an object
  that the library returned for a \<^verbatim>\<open>LinearProblem\<close> built with the notebook's
  options, in a call of the trace that did not raise. \<open>keeps Q m\<close>: \<open>m\<close> takes a trace that
  satisfies \<open>Q\<close> to one that does.
\<close>

definition solves_configured ::
  "('h, 'e, 'o) library \<Rightarrow> ('o call \<times> 'e option) list \<Rightarrow> bool" where
  "solves_configured lib tr \<longleftrightarrow>
     (\<forall>x \<in> set tr. \<forall>p. fst x = Solve p \<longrightarrow>
        (\<exists>a L bcs h0 h1. (LinearProblem a L bcs petsc_options, None) \<in> set tr
           \<and> ext_object lib (LinearProblem a L bcs petsc_options) h0 = (Inr p, h1)))"

definition keeps ::
  "(('o call \<times> 'e option) list \<Rightarrow> bool) \<Rightarrow> ('h, 'e, 'o, 'a) nb \<Rightarrow> bool" where
  "keeps Q m \<longleftrightarrow> (\<forall>h tr. Q tr \<longrightarrow> Q (snd (snd (m (h, tr)))))"

subsection \<open>Two concrete libraries\<close>

text \<open>
  The theorems below hold for every library. To run the script on an actual one: the
  symbolic library answers each call with the call itself as the object, so that the
  objects of a run show how they were built; its state counts the calls, and the dimension
  of the topology is 2. The second library is the same, except that \<^verbatim>\<open>solve\<close> raises.
\<close>

datatype py_obj = Obj "py_obj call"

definition symbolic :: "(nat, string, py_obj) library" where
  "symbolic =
    \<lparr>ext_object = (\<lambda>c h. (Inr (Obj c), Suc h)),
     ext_int = (\<lambda>c h. (Inr 2, Suc h)),
     ext_none = (\<lambda>c h. (Inr (), Suc h))\<rparr>"

definition singular :: "(nat, string, py_obj) library" where
  "singular =
    symbolic\<lparr>ext_object :=
      (\<lambda>c h. (if op_name c = ''solve'' then Inl ''PETSc.Error'' else Inr (Obj c), Suc h))\<rparr>"

section \<open>Reasoning about a run\<close>

subsection \<open>One call at a time\<close>

lemma seq_call:
  "seq (call ext c) k (h, tr) =
    (case ext c h of
       (Inl e, h') \<Rightarrow> (Inl e, (h', tr @ [(c, Some e)]))
     | (Inr a, h') \<Rightarrow> k a (h', tr @ [(c, None)]))"
  by (simp add: seq_def call_def split: prod.splits sum.splits)

lemma call_run:
  "call ext c (h, tr) =
    (case ext c h of
       (Inl e, h') \<Rightarrow> (Inl e, (h', tr @ [(c, Some e)]))
     | (Inr a, h') \<Rightarrow> (Inr a, (h', tr @ [(c, None)])))"
  by (simp add: call_def)

lemmas run_simps = notebook_def symbolic_def singular_def seq_call call_run Let_def

lemma performs_call: "op_name c = n \<Longrightarrow> performs (call ext c) [n]"
  unfolding performs_def call_def ops_def
  by (auto split: prod.splits sum.splits)

lemma performs_seq:
  assumes m: "performs m xs" and k: "\<And>a. performs (k a) ys"
  shows "performs (seq m k) (xs @ ys)"
  unfolding performs_def
proof (intro allI)
  fix h tr
  obtain r h1 tr1 where run: "m (h, tr) = (r, (h1, tr1))"
    by (metis surj_pair)
  show "case seq m k (h, tr) of
       (Inr a, (h', tr')) \<Rightarrow>
         (\<exists>new. tr' = tr @ new \<and> ops new = xs @ ys \<and> (\<forall>x \<in> set new. snd x = None))
     | (Inl e, (h', tr')) \<Rightarrow>
         (\<exists>new c. tr' = tr @ new @ [(c, Some e)] \<and> prefix (ops new @ [op_name c]) (xs @ ys)
            \<and> (\<forall>x \<in> set new. snd x = None))"
  proof (cases r)
    case (Inl e)
    with m run obtain new c where
      "tr1 = tr @ new @ [(c, Some e)]" "prefix (ops new @ [op_name c]) xs"
      "\<forall>x \<in> set new. snd x = None"
      unfolding performs_def by (fastforce dest: spec [of _ h] spec [of _ tr])
    with Inl run show ?thesis
      by (auto simp: seq_def prefix_prefix)
  next
    case (Inr a)
    with m run obtain new where new:
      "tr1 = tr @ new" "ops new = xs" "\<forall>x \<in> set new. snd x = None"
      unfolding performs_def by (fastforce dest: spec [of _ h] spec [of _ tr])
    obtain r2 h2 tr2 where run2: "k a (h1, tr1) = (r2, (h2, tr2))"
      by (metis surj_pair)
    show ?thesis
    proof (cases r2)
      case (Inl e)
      with k [of a] run2 obtain new2 c where
        "tr2 = tr1 @ new2 @ [(c, Some e)]" "prefix (ops new2 @ [op_name c]) ys"
        "\<forall>x \<in> set new2. snd x = None"
        unfolding performs_def by (fastforce dest: spec [of _ h1] spec [of _ tr1])
      with Inl Inr run run2 new show ?thesis
        by (auto simp: seq_def ops_def intro!: exI [of _ "new @ new2"])
    next
      case (Inr b)
      with k [of a] run2 obtain new2 where
        "tr2 = tr1 @ new2" "ops new2 = ys" "\<forall>x \<in> set new2. snd x = None"
        unfolding performs_def by (fastforce dest: spec [of _ h1] spec [of _ tr1])
      with Inr \<open>r = Inr a\<close> run run2 new show ?thesis
        by (auto simp: seq_def ops_def intro!: exI [of _ "new @ new2"])
    qed
  qed
qed

lemma performs_call_seq:
  "op_name c = n \<Longrightarrow> (\<And>a. performs (k a) ns) \<Longrightarrow> performs (seq (call ext c) k) (n # ns)"
  using performs_seq [OF performs_call, of c n k ns] by simp

lemma only_calls_call: "P c \<Longrightarrow> only_calls P (call ext c)"
  unfolding only_calls_def call_def
  by (auto split: prod.splits sum.splits)

lemma only_calls_call_seq:
  fixes ext :: "'o call \<Rightarrow> 'h \<Rightarrow> ('e + 'a) \<times> 'h"
  assumes c: "P c" and k: "\<And>a. only_calls P (k a)"
  shows "only_calls P (seq (call ext c) k)"
  unfolding only_calls_def
proof (intro allI impI)
  fix h :: 'h and tr :: "('o call \<times> 'e option) list"
  assume tr: "\<forall>x \<in> set tr. P (fst x)"
  obtain r h' where ext: "ext c h = (r, h')"
    by (metis surj_pair)
  show "\<forall>x \<in> set (snd (snd (seq (call ext c) k (h, tr)))). P (fst x)"
  proof (cases r)
    case (Inl e)
    with ext tr c show ?thesis
      by (simp add: seq_call)
  next
    case (Inr a)
    from tr c have "\<forall>x \<in> set (tr @ [(c, None)]). P (fst x)"
      by simp
    with k [of a] have "\<forall>x \<in> set (snd (snd (k a (h', tr @ [(c, None)])))). P (fst x)"
      unfolding only_calls_def by blast
    with ext Inr show ?thesis
      by (simp add: seq_call)
  qed
qed

lemma solves_configured_snoc:
  assumes "\<And>p. c \<noteq> Solve p" "solves_configured lib tr"
  shows "solves_configured lib (tr @ [(c, out)])"
  using assms unfolding solves_configured_def by fastforce

lemma keeps_call:
  assumes "\<And>p. c \<noteq> Solve p"
  shows "keeps (solves_configured lib) (call ext c)"
  unfolding keeps_def call_run
  by (auto split: prod.splits sum.splits intro: solves_configured_snoc [OF assms])

lemma keeps_call_seq:
  fixes ext :: "'o call \<Rightarrow> 'h \<Rightarrow> ('e + 'a) \<times> 'h"
  assumes c: "\<And>p. c \<noteq> Solve p" and k: "\<And>a. keeps (solves_configured lib) (k a)"
  shows "keeps (solves_configured lib) (seq (call ext c) k)"
  unfolding keeps_def
proof (intro allI impI)
  fix h :: 'h and tr :: "('o call \<times> 'e option) list"
  assume tr: "solves_configured lib tr"
  obtain r h' where ext: "ext c h = (r, h')"
    by (metis surj_pair)
  show "solves_configured lib (snd (snd (seq (call ext c) k (h, tr))))"
  proof (cases r)
    case (Inl e)
    with ext solves_configured_snoc [OF c tr] show ?thesis
      by (simp add: seq_call)
  next
    case (Inr a)
    from k [of a] solves_configured_snoc [OF c tr]
    have "solves_configured lib (snd (snd (k a (h', tr @ [(c, None)]))))"
      unfolding keeps_def by blast
    with ext Inr show ?thesis
      by (simp add: seq_call)
  qed
qed

lemma keeps_solve:
  "keeps (solves_configured lib)
     (seq (call (ext_object lib) (LinearProblem a L bcs petsc_options)) (\<lambda>problem.
      seq (call ext2 (Solve problem)) (\<lambda>uh.
      seq (call ext3 (Vector uh)) (\<lambda>vec.
      call ext4 (Array vec)))))"
  unfolding keeps_def
proof (intro allI impI)
  fix h tr
  assume tr: "solves_configured lib tr"
  have lp: "solves_configured lib (tr @ [(LinearProblem a L bcs petsc_options, out)])" for out
    using tr by (rule solves_configured_snoc [rotated]) simp
  have solved: "solves_configured lib
      (tr @ [(LinearProblem a L bcs petsc_options, None), (Solve p, out)])"
    if "ext_object lib (LinearProblem a L bcs petsc_options) h = (Inr p, h')" for p h' out
    using lp [of None] that unfolding solves_configured_def by fastforce
  have more: "solves_configured lib (tr' @ [(c, out)])"
    if "solves_configured lib tr'" "\<And>p. c \<noteq> Solve p" for tr' c out
    using that(2,1) by (rule solves_configured_snoc)
  show "solves_configured lib (snd (snd (
     (seq (call (ext_object lib) (LinearProblem a L bcs petsc_options)) (\<lambda>problem.
      seq (call ext2 (Solve problem)) (\<lambda>uh.
      seq (call ext3 (Vector uh)) (\<lambda>vec.
      call ext4 (Array vec))))) (h, tr))))"
  proof (cases "ext_object lib (LinearProblem a L bcs petsc_options) h")
    case (Pair r h1)
    show ?thesis
    proof (cases r)
      case (Inl e)
      with Pair lp show ?thesis
        by (simp add: seq_call)
    next
      case (Inr p)
      with Pair have s: "solves_configured lib
          (tr @ [(LinearProblem a L bcs petsc_options, None), (Solve p, out)])" for out
        using solved by blast
      from s more [OF s] more [OF more [OF s]] Pair Inr show ?thesis
        by (simp add: seq_call call_run split: prod.splits sum.splits)
    qed
  qed
qed

subsection \<open>The whole script\<close>

lemma notebook_performs: "performs (notebook lib) program_order"
  unfolding notebook_def program_order_def cells_def Let_def concat.simps append.simps
  by (intro performs_call_seq performs_call op_name.simps)

lemma notebook_only_calls:
  assumes "\<And>m. P (Import m)" "\<And>m n. P (From_import m n)"
    "P (Create_unit_square COMM_WORLD nx ny quadrilateral)"
    "\<And>m. P (FunctionSpace m element)" "\<And>V. P (Function V)" "\<And>u. P (Interpolate u u_D)"
    "\<And>m. P (Topology m)" "\<And>t. P (Topology_dim t)" "\<And>t d. P (Create_connectivity t (d - 1) d)"
    "\<And>t. P (Exterior_facet_indices t)" "\<And>V d fs. P (Locate_dofs_topological V d fs)"
    "\<And>g dofs. P (Dirichletbc g dofs)" "\<And>V. P (TrialFunction V)" "\<And>V. P (TestFunction V)"
    "P (ScalarType f_num)" "\<And>m c. P (Constant m c)" "\<And>e. P (Grad e)" "\<And>e1 e2. P (Dot e1 e2)"
    "P Dx" "\<And>e1 e2. P (Mul e1 e2)" "\<And>a L bc. P (LinearProblem a L [bc] petsc_options)"
    "\<And>p. P (Solve p)" "\<And>u. P (Vector u)" "\<And>v. P (Array v)"
  shows "only_calls P (notebook lib)"
  unfolding notebook_def Let_def
  by (intro only_calls_call_seq only_calls_call assms)

lemma notebook_trace:
  assumes run: "notebook lib (h, []) = (r, (h', tr))"
  shows "prefix (ops tr) program_order"
    and "\<forall>i. Suc i < length tr \<longrightarrow> snd (tr ! i) = None"
    and "\<And>a. r = Inr a \<Longrightarrow> ops tr = program_order \<and> (\<forall>x \<in> set tr. snd x = None)"
    and "\<And>e. r = Inl e \<Longrightarrow> tr \<noteq> [] \<and> snd (last tr) = Some e"
proof -
  have cases: "case r of
      Inr a \<Rightarrow> (\<exists>new. tr = new \<and> ops new = program_order \<and> (\<forall>x \<in> set new. snd x = None))
    | Inl e \<Rightarrow> (\<exists>new c. tr = new @ [(c, Some e)] \<and> prefix (ops new @ [op_name c]) program_order
            \<and> (\<forall>x \<in> set new. snd x = None))"
    using notebook_performs [of lib] run unfolding performs_def
    by (auto dest!: spec [of _ h] spec [of _ "[]"] split: sum.splits)
  show "prefix (ops tr) program_order"
    using cases by (auto simp: ops_def split: sum.splits)
  show "\<forall>i. Suc i < length tr \<longrightarrow> snd (tr ! i) = None"
    using cases by (auto simp: nth_append split: sum.splits)
  show "ops tr = program_order \<and> (\<forall>x \<in> set tr. snd x = None)" if "r = Inr a" for a
    using cases that by auto
  show "tr \<noteq> [] \<and> snd (last tr) = Some e" if "r = Inl e" for e
    using cases that by auto
qed



lemma notebook_keeps: "keeps (solves_configured lib) (notebook lib)"
  unfolding notebook_def Let_def
  by (intro keeps_solve keeps_call_seq) simp_all

lemma op_name_solve: "op_name c = ''solve'' \<Longrightarrow> \<exists>p. c = Solve p"
  by (cases c) simp_all

subsection \<open>The boundary function\<close>

lemma u_D_partial_x: "((\<lambda>s. u_D [s, y, z]) has_real_derivative 2 * x) (at x)"
  unfolding u_D_def by (auto intro!: derivative_eq_intros)

lemma u_D_partial_y: "((\<lambda>t. u_D [x, t, z]) has_real_derivative 4 * y) (at y)"
  unfolding u_D_def by (auto intro!: derivative_eq_intros)

lemma linear_slope: "((\<lambda>s. c * s) has_real_derivative c) (at x)"
  by (auto intro!: derivative_eq_intros)

section \<open>The variational problem and its solver\<close>

text \<open>
  C5: the source term of the linear form \<open>L = f * v * dx\<close> is the constant \<open>f = -6\<close>, and
  \<open>-6\<close> is minus the Laplacian of \<open>u(x,y) = 1 + x\<^sup>2 + 2y\<^sup>2\<close>. Whatever functions are the
  first and second partial derivatives of \<open>u_D\<close> in \<open>x\<close> and in \<open>y\<close>, minus the sum of the
  second ones is \<open>f_num\<close> at every point; every run passes \<open>f_num\<close>, and nothing else, to
  \<^verbatim>\<open>PETSc.ScalarType\<close>; and in the symbolic run the linear form handed to the solver is
  the product of the \<^verbatim>\<open>Constant\<close> built from that scalar, the test function and
  \<^verbatim>\<open>dx\<close>.
\<close>

theorem source_term_is_minus_laplacian:
  assumes ux: "\<And>x y. ((\<lambda>s. u_D [s, y, z]) has_real_derivative ux x y) (at x)"
    and uxx: "\<And>x y. ((\<lambda>s. ux s y) has_real_derivative uxx x y) (at x)"
    and uy: "\<And>x y. ((\<lambda>t. u_D [x, t, z]) has_real_derivative uy x y) (at y)"
    and uyy: "\<And>x y. ((\<lambda>t. uy x t) has_real_derivative uyy x y) (at y)"
  shows "f_num = - 6
    \<and> real_of_int f_num = - (uxx x y + uyy x y)
    \<and> (\<forall>c \<in> set (snd (snd (notebook lib (h, [])))). \<forall>n. fst c = ScalarType n \<longrightarrow> n = f_num)
    \<and> (let mesh = Obj (Create_unit_square COMM_WORLD nx ny quadrilateral);
            V = Obj (FunctionSpace mesh element);
            f = Obj (Constant mesh (Obj (ScalarType f_num)));
            v = Obj (TestFunction V);
            L = Obj (Mul (Obj (Mul f v)) (Obj Dx))
        in \<exists>a bcs. (LinearProblem a L bcs petsc_options, None)
             \<in> set (snd (snd (notebook symbolic (0, [])))))"
proof -
  have "ux s t = 2 * s" for s t
    using ux u_D_partial_x by (rule DERIV_unique)
  with uxx have "((\<lambda>s. 2 * s) has_real_derivative uxx x y) (at x)"
    by simp
  then have xx: "uxx x y = 2"
    using linear_slope by (rule DERIV_unique)
  have "uy s t = 4 * t" for s t
    using uy u_D_partial_y by (rule DERIV_unique)
  with uyy have "((\<lambda>t. 4 * t) has_real_derivative uyy x y) (at y)"
    by simp
  then have yy: "uyy x y = 4"
    using linear_slope by (rule DERIV_unique)
  have "only_calls (\<lambda>c. \<forall>n. c = ScalarType n \<longrightarrow> n = f_num) (notebook lib)"
    by (rule notebook_only_calls) simp_all
  then have scalar: "\<forall>c \<in> set (snd (snd (notebook lib (h, [])))).
      \<forall>n. fst c = ScalarType n \<longrightarrow> n = f_num"
    unfolding only_calls_def by (auto dest!: spec [of _ h] spec [of _ "[]"])
  have form: "let mesh = Obj (Create_unit_square COMM_WORLD nx ny quadrilateral);
            V = Obj (FunctionSpace mesh element);
            f = Obj (Constant mesh (Obj (ScalarType f_num)));
            v = Obj (TestFunction V);
            L = Obj (Mul (Obj (Mul f v)) (Obj Dx))
        in \<exists>a bcs. (LinearProblem a L bcs petsc_options, None)
             \<in> set (snd (snd (notebook symbolic (0, []))))"
    by (simp add: run_simps)
  from xx yy scalar form show ?thesis
    by (simp add: f_num_def)
qed

theorem source_term_is_minus_laplacian_witness:
  "real_of_int f_num = - (2 + 4)
   \<and> (ScalarType f_num, None :: string option) \<in> set (snd (snd (notebook symbolic (0, []))))"
proof -
  have called: "(ScalarType f_num, None) \<in> set (snd (snd (notebook symbolic (0, []))))"
    by (simp add: run_simps)
  note inst = source_term_is_minus_laplacian
    [of 0 "\<lambda>x y. 2 * x" "\<lambda>x y. 2" "\<lambda>x y. 4 * y" "\<lambda>x y. 4" 0 0 symbolic 0,
     OF u_D_partial_x linear_slope u_D_partial_y linear_slope]
  from inst have "real_of_int f_num = - (2 + 4)"
    by simp
  with called show ?thesis
    by simp
qed

text \<open>
  C6: the linear system is solved by a direct LU factorisation of the external solver.
  The options the notebook passes ask for no Krylov iteration (\<^verbatim>\<open>ksp_type\<close> is
  \<^verbatim>\<open>preonly\<close>) and for an LU factorisation (\<^verbatim>\<open>pc_type\<close> is \<^verbatim>\<open>lu\<close>), and for
  nothing else. In every run, with every library: each \<^verbatim>\<open>LinearProblem\<close> the notebook
  builds carries these options; each \<^verbatim>\<open>solve\<close> is called on an object the library
  returned for a \<^verbatim>\<open>LinearProblem\<close> with these options, built by a call of the same
  run that did not raise; and a run that ends without an exception has called
  \<^verbatim>\<open>solve\<close>, without an exception. What PETSc does under these options is the
  library's business.
\<close>

theorem linear_system_solved_by_direct_lu:
  "map_of petsc_options ''ksp_type'' = Some ''preonly''
   \<and> map_of petsc_options ''pc_type'' = Some ''lu''
   \<and> map fst petsc_options = [''ksp_type'', ''pc_type'']
   \<and> (\<forall>x \<in> set (snd (snd (notebook lib (h, [])))).
        \<forall>a L bcs opts. fst x = LinearProblem a L bcs opts \<longrightarrow> opts = petsc_options)
   \<and> (\<forall>x \<in> set (snd (snd (notebook lib (h, [])))).
        \<forall>p. fst x = Solve p \<longrightarrow>
          (\<exists>a L bcs h0 h1.
             (LinearProblem a L bcs petsc_options, None) \<in> set (snd (snd (notebook lib (h, []))))
           \<and> ext_object lib (LinearProblem a L bcs petsc_options) h0 = (Inr p, h1)))
   \<and> ((\<exists>r. fst (notebook lib (h, [])) = Inr r) \<longrightarrow>
        (\<exists>p. (Solve p, None) \<in> set (snd (snd (notebook lib (h, []))))))"
proof -
  have "only_calls (\<lambda>c. \<forall>a L bcs opts. c = LinearProblem a L bcs opts \<longrightarrow> opts = petsc_options)
     (notebook lib)"
    by (rule notebook_only_calls) simp_all
  then have options: "\<forall>x \<in> set (snd (snd (notebook lib (h, [])))).
      \<forall>a L bcs opts. fst x = LinearProblem a L bcs opts \<longrightarrow> opts = petsc_options"
    unfolding only_calls_def by (auto dest!: spec [of _ h] spec [of _ "[]"])
  have "solves_configured lib []"
    by (simp add: solves_configured_def)
  with notebook_keeps [of lib] have "solves_configured lib (snd (snd (notebook lib (h, []))))"
    unfolding keeps_def by blast
  then have solve: "\<forall>x \<in> set (snd (snd (notebook lib (h, [])))).
        \<forall>p. fst x = Solve p \<longrightarrow>
          (\<exists>a L bcs h0 h1.
             (LinearProblem a L bcs petsc_options, None) \<in> set (snd (snd (notebook lib (h, []))))
           \<and> ext_object lib (LinearProblem a L bcs petsc_options) h0 = (Inr p, h1))"
    unfolding solves_configured_def .
  have solved: "\<exists>p. (Solve p, None) \<in> set (snd (snd (notebook lib (h, []))))"
    if ok: "\<exists>r. fst (notebook lib (h, [])) = Inr r"
  proof -
    obtain r h' tr where run: "notebook lib (h, []) = (r, (h', tr))"
      by (metis surj_pair)
    with ok obtain v where "r = Inr v"
      by auto
    with notebook_trace(3) [OF run] have full: "ops tr = program_order"
      and clean: "\<forall>x \<in> set tr. snd x = None"
      by blast+
    have "''solve'' \<in> set program_order"
      by (simp add: program_order_def cells_def)
    with full have "''solve'' \<in> (\<lambda>x. op_name (fst x)) ` set tr"
      unfolding ops_def by (metis set_map)
    then obtain x where x: "x \<in> set tr" "op_name (fst x) = ''solve''"
      by auto
    then obtain p where "fst x = Solve p"
      using op_name_solve by blast
    moreover from x clean have "snd x = None"
      by blast
    ultimately have "x = (Solve p, None)"
      by (simp add: prod_eq_iff)
    with x run show ?thesis
      by auto
  qed
  from options solve solved show ?thesis
    by (simp add: petsc_options_def)
qed

theorem linear_system_solved_by_direct_lu_witness:
  "\<exists>a L bcs. (Solve (Obj (LinearProblem a L bcs [(''ksp_type'', ''preonly''), (''pc_type'', ''lu'')])),
       None :: string option) \<in> set (snd (snd (notebook symbolic (0, []))))"
proof -
  note inst = linear_system_solved_by_direct_lu [of symbolic 0]
  have ok: "\<exists>r. fst (notebook symbolic (0, [])) = Inr r"
    by (simp add: run_simps)
  with inst obtain p where
    solved: "(Solve p, None) \<in> set (snd (snd (notebook symbolic (0, []))))"
    by blast
  from inst have "\<forall>x \<in> set (snd (snd (notebook symbolic (0, [])))).
        \<forall>p. fst x = Solve p \<longrightarrow>
          (\<exists>a L bcs h0 h1.
             (LinearProblem a L bcs petsc_options, None) \<in> set (snd (snd (notebook symbolic (0, []))))
           \<and> ext_object symbolic (LinearProblem a L bcs petsc_options) h0 = (Inr p, h1))"
    by blast
  with solved obtain a L bcs h0 h1 where
    "ext_object symbolic (LinearProblem a L bcs petsc_options) h0 = (Inr p, h1)"
    by fastforce
  then have "p = Obj (LinearProblem a L bcs [(''ksp_type'', ''preonly''), (''pc_type'', ''lu'')])"
    by (simp add: symbolic_def petsc_options_def)
  with solved show ?thesis
    by blast
qed

section \<open>Exceptions and the order of the calls\<close>

text \<open>
  C7: the notebook handles no error itself. For every library and every state of it: the
  run ends with an exception exactly when a call the notebook made raised that very
  exception, so that each failure of a library call reaches the caller unchanged and the
  notebook has no error of its own; and a call that raised is the last call of the run,
  so that nothing is retried and nothing runs after a failure.
\<close>

theorem library_errors_propagate:
  "case notebook lib (h, []) of (r, (h', tr)) \<Rightarrow>
     (\<forall>e. r = Inl e \<longleftrightarrow> (\<exists>c. (c, Some e) \<in> set tr))
   \<and> (\<forall>i < length tr. snd (tr ! i) \<noteq> None \<longrightarrow> Suc i = length tr)"
proof -
  obtain r h' tr where run: "notebook lib (h, []) = (r, (h', tr))"
    by (metis surj_pair)
  note facts = notebook_trace [OF run]
  have last_only: "\<forall>i < length tr. snd (tr ! i) \<noteq> None \<longrightarrow> Suc i = length tr"
    using facts(2) by (metis Suc_lessI)
  have "r = Inl e \<longleftrightarrow> (\<exists>c. (c, Some e) \<in> set tr)" for e
  proof
    assume "r = Inl e"
    with facts(4) have "tr \<noteq> []" "snd (last tr) = Some e"
      by simp_all
    then have "(fst (last tr), Some e) \<in> set tr"
      by (metis last_in_set prod.collapse)
    then show "\<exists>c. (c, Some e) \<in> set tr" ..
  next
    assume "\<exists>c. (c, Some e) \<in> set tr"
    then obtain c where c: "(c, Some e) \<in> set tr" ..
    show "r = Inl e"
    proof (cases r)
      case (Inr a)
      with facts(3) c show ?thesis
        by fastforce
    next
      case (Inl e')
      with facts(4) have ne: "tr \<noteq> []" and l: "snd (last tr) = Some e'"
        by simp_all
      from c obtain i where i: "i < length tr" "tr ! i = (c, Some e)"
        by (auto simp: in_set_conv_nth)
      with last_only have "Suc i = length tr"
        by simp
      then have "length tr - 1 = i"
        by simp
      with i ne have "last tr = (c, Some e)"
        by (simp add: last_conv_nth)
      with l Inl show ?thesis
        by simp
    qed
  qed
  with last_only run show ?thesis
    by simp
qed

theorem library_errors_propagate_witness:
  "(\<exists>c. (c, Some ''PETSc.Error'') \<in> set (snd (snd (notebook singular (0, [])))))
   \<and> fst (notebook singular (0, [])) = Inl ''PETSc.Error''
   \<and> 30 < length (snd (snd (notebook singular (0, []))))
   \<and> snd (snd (snd (notebook singular (0, []))) ! 30) \<noteq> None
   \<and> Suc 30 = length (snd (snd (notebook singular (0, []))))"
proof -
  have raised: "\<exists>c. (c, Some ''PETSc.Error'') \<in> set (snd (snd (notebook singular (0, []))))"
    by (simp add: run_simps nx_def ny_def element_def f_num_def)
  have at_30: "30 < length (snd (snd (notebook singular (0, []))))
      \<and> snd (snd (snd (notebook singular (0, []))) ! 30) \<noteq> None"
    by (simp add: run_simps)
  from library_errors_propagate [of singular 0] raised at_30 show ?thesis
    by (auto split: prod.splits)
qed



end
